theory Spec2Isabelle
  imports Main
begin

section \<open>Data model of the pager's screen compositor\<close>

text \<open>
  The compositor of the pager lives in one source file (\<open>Draw\<close>, \<open>ResetScreen\<close>,
  \<open>reverseContents\<close>, \<open>wrapContents\<close>, \<open>noWrapContents\<close>, \<open>headerStyle\<close>,
  \<open>statusDraw\<close>, \<open>setContentString\<close>).  Go's \<open>int\<close> is modelled by the unbounded
  \<open>int\<close>: every quantity here is a terminal coordinate, a line number or a cell index.
  A run time panic of Go (an index out of range) is the error value \<open>IndexOutOfRange\<close>.
\<close>

datatype error = IndexOutOfRange | OutOfRange

type_synonym rune = int
type_synonym Color = int

definition ColorDefault :: Color where "ColorDefault = - 1"
definition ColorGray :: Color where "ColorGray = 8"

datatype AttrMask = AttrBold | AttrBlink | AttrReverse | AttrUnderline | AttrDim

text \<open>
  The style of the terminal library: a foreground colour, a background colour and a set of
  attributes.  \<open>Reverse on\<close> switches the reverse attribute on or off, \<open>Bold on\<close> the bold
  one, \<open>StyleNormal\<close> (the method \<open>Normal\<close>) clears every attribute, \<open>Decompose\<close> returns the three parts.
\<close>

record Style =
  fg :: Color
  bg :: Color
  attrs :: "AttrMask set"

definition StyleDefault :: Style where
  "StyleDefault = \<lparr>fg = ColorDefault, bg = ColorDefault, attrs = {}\<rparr>"

definition setAttrs :: "Style \<Rightarrow> AttrMask \<Rightarrow> bool \<Rightarrow> Style" where
  "setAttrs s a on = (if on then s\<lparr>attrs := insert a (attrs s)\<rparr> else s\<lparr>attrs := attrs s - {a}\<rparr>)"

definition Reverse :: "Style \<Rightarrow> bool \<Rightarrow> Style" where
  "Reverse s on = setAttrs s AttrReverse on"

definition Bold :: "Style \<Rightarrow> bool \<Rightarrow> Style" where
  "Bold s on = setAttrs s AttrBold on"

definition StyleNormal :: "Style \<Rightarrow> Style" where
  "StyleNormal s = s\<lparr>attrs := {}\<rparr>"

definition Foreground :: "Style \<Rightarrow> Color \<Rightarrow> Style" where
  "Foreground s c = s\<lparr>fg := c\<rparr>"

definition Background :: "Style \<Rightarrow> Color \<Rightarrow> Style" where
  "Background s c = s\<lparr>bg := c\<rparr>"

definition Decompose :: "Style \<Rightarrow> Color \<times> Color \<times> AttrMask set" where
  "Decompose s = (fg s, bg s, attrs s)"

text \<open>One display cell: \<open>content\<close> of the source.\<close>

record content =
  width :: int
  mainc :: rune
  combc :: "rune list"
  style :: Style

text \<open>
  Modelled from the spec: the declaration of \<open>lineContents\<close> is not among the sources.
  The spec gives it as the cells of a line together with \<open>byteMap\<close>, a mapping from raw byte
  offset to cell index.  The mapping is a Go map: reading an offset that is not a key yields
  the zero value \<open>0\<close>.
\<close>

record lineContents =
  contents :: "content list"
  byteMap :: "int \<rightharpoonup> int"

definition byteMapAt :: "lineContents \<Rightarrow> int \<Rightarrow> int" where
  "byteMapAt lc i = (case byteMap lc i of None \<Rightarrow> 0 | Some n \<Rightarrow> n)"

subsection \<open>\<open>reverseContents\<close>\<close>

text \<open>
  \<^verbatim>\<open>for n := lc.byteMap[start]; n < lc.byteMap[end]; n++ {
      lc.contents[n].style = lc.contents[n].style.Reverse(true) }\<close>
  The loop writes through the slice, so the model returns the updated cells; an index outside
  the slice panics.
\<close>

function reverseLoop :: "int \<Rightarrow> int \<Rightarrow> content list \<Rightarrow> error + content list" where
  "reverseLoop n hi cs =
     (if n < hi then
        (if n < 0 \<or> int (length cs) \<le> n then Inl IndexOutOfRange
         else reverseLoop (n + 1) hi
                (cs[nat n := (cs ! nat n)\<lparr>style := Reverse (style (cs ! nat n)) True\<rparr>]))
      else Inr cs)"
  by pat_completeness auto
termination
  by (relation "measure (\<lambda>(n, hi, cs). nat (hi - n))") auto

definition reverseContents :: "lineContents \<Rightarrow> int \<Rightarrow> int \<Rightarrow> error + lineContents" where
  "reverseContents lc start end' =
     (case reverseLoop (byteMapAt lc start) (byteMapAt lc end') (contents lc) of
        Inl e \<Rightarrow> Inl e
      | Inr cs \<Rightarrow> Inr (lc\<lparr>contents := cs\<rparr>))"

text \<open>The invariant of line contents that the spec states, for a line of \<open>n\<close> bytes.\<close>

definition lc_inv :: "lineContents \<Rightarrow> int \<Rightarrow> bool" where
  "lc_inv lc n \<longleftrightarrow>
     0 \<le> byteMapAt lc 0 \<and> byteMapAt lc n = int (length (contents lc)) \<and>
     (\<forall>i j. 0 \<le> i \<and> i \<le> j \<and> j \<le> n \<longrightarrow> byteMapAt lc i \<le> byteMapAt lc j)"


subsection \<open>The cell sink\<close>

text \<open>
  The terminal backend is outside the program: the compositor only calls \<open>SetContent\<close>,
  \<open>ShowCursor\<close> and \<open>Show\<close> on it.  The screen is therefore the sequence of these calls, in
  the order they were made.  \<open>GetContent\<close> reads back the cell written last at a position,
  and a blank cell where nothing was written.
\<close>

datatype event =
  SetContent int int rune "rune list" Style
| ShowCursor int int
| Show

type_synonym Screen = "event list"

fun lastCell :: "Screen \<Rightarrow> int \<Rightarrow> int \<Rightarrow> (rune \<times> rune list \<times> Style) option" where
  "lastCell [] px py = None"
| "lastCell (e # es) px py =
     (case lastCell es px py of
        Some c \<Rightarrow> Some c
      | None \<Rightarrow>
          (case e of
             SetContent ex ey r c s \<Rightarrow> if ex = px \<and> ey = py then Some (r, c, s) else None
           | ShowCursor cx cy \<Rightarrow> None
           | Show \<Rightarrow> None))"

definition GetContent :: "Screen \<Rightarrow> int \<Rightarrow> int \<Rightarrow> rune \<times> rune list \<times> Style" where
  "GetContent scr px py =
     (case lastCell scr px py of None \<Rightarrow> (32, [], StyleDefault) | Some c \<Rightarrow> c)"

subsection \<open>Document and view state\<close>

text \<open>
  Modelled from the spec: the declarations of the document (\<open>Model\<close>), of the prompt state
  (\<open>Input\<close>) and of \<open>Root\<close> are not among the sources; the records hold the fields that the
  compositor reads and writes.  The field \<open>x\<close> of the document is \<open>mx\<close> here and the field
  \<open>value\<close> of the prompt is \<open>input_value\<close>.  A compiled search pattern is represented by the
  function from a raw line to its match spans; \<open>prompt\<close> is what \<open>EventInput.Prompt()\<close>
  returns.
\<close>

record Model =
  buffer :: "string list"
  lineNum :: int
  mx :: int
  yy :: int
  vWidth :: int
  vHight :: int
  FileName :: string
  eof :: bool

datatype InputMode = Normal | Prompting

record Input =
  mode :: InputMode
  input_value :: string
  cursorX :: int
  reg :: "(string \<Rightarrow> (int \<times> int) list) option"
  prompt :: string

record Root =
  Model :: Model
  Screen :: Screen
  Header :: int
  TabWidth :: int
  ColumnMode :: bool
  ColumnDelimiter :: string
  columnNum :: int
  WrapMode :: bool
  LineNumMode :: bool
  AlternateRows :: bool
  startX :: int
  minStartX :: int
  statusPos :: int
  bottomPos :: int
  message :: string
  CaseSensitive :: bool
  Input :: Input
  Debug :: bool

text \<open>
  The collaborators whose code is not among the sources are parameters of the model: the
  content layout engine, the column position finder, \<open>bottomLineNum\<close> and \<open>HeaderLen\<close>
  (methods of \<open>Root\<close>), and the theming constants \<open>HeaderStyle\<close> and \<open>ColorAlternate\<close>.
\<close>

record Env =
  layout :: "string \<Rightarrow> int \<Rightarrow> lineContents"
  rangePosition :: "string \<Rightarrow> string \<Rightarrow> int \<Rightarrow> int \<times> int"
  bottomLineNum :: "Root \<Rightarrow> int \<Rightarrow> int"
  HeaderLen :: "Root \<Rightarrow> int"
  HeaderStyle :: Style
  ColorAlternate :: Color

text \<open>
  Modelled from the spec: the chunk store's \<open>lineCount\<close> and \<open>line\<close> (here \<open>BufEndNum\<close>,
  \<open>GetLine\<close>, \<open>lineToContents\<close>) and the end-of-input flag \<open>BufEOF\<close> are not among the
  sources.  Requesting a line number at or past the line count fails with \<open>OutOfRange\<close>;
  otherwise the line's cells are the layout of its raw bytes.  \<open>GetLine\<close> has no error
  result: outside the buffer it yields the empty line.
\<close>

definition BufEndNum :: "Model \<Rightarrow> int" where
  "BufEndNum m = int (length (buffer m))"

definition BufEOF :: "Model \<Rightarrow> bool" where
  "BufEOF m = eof m"

definition GetLine :: "Model \<Rightarrow> int \<Rightarrow> string" where
  "GetLine m n = (if 0 \<le> n \<and> n < BufEndNum m then buffer m ! nat n else [])"

definition lineToContents :: "Env \<Rightarrow> Model \<Rightarrow> int \<Rightarrow> int \<Rightarrow> error + lineContents" where
  "lineToContents E m n tw =
     (if n < 0 \<or> BufEndNum m \<le> n then Inl OutOfRange
      else Inr (layout E (buffer m ! nat n) tw))"

definition strToContents :: "Env \<Rightarrow> string \<Rightarrow> int \<Rightarrow> content list" where
  "strToContents E s tw = contents (layout E s tw)"

definition searchPosition :: "string \<Rightarrow> (string \<Rightarrow> (int \<times> int) list) \<Rightarrow> (int \<times> int) list" where
  "searchPosition line r = r line"

subsection \<open>Formatting and integer division\<close>

text \<open>
  \<open>fmt.Sprintf\<close> with \<open>%d\<close> prints a decimal number, \<open>%*d\<close> pads it with blanks to a width
  (on the right when the width is negative).  Go's \<open>/\<close> and \<open>%\<close> truncate towards zero.
\<close>

fun digits :: "nat \<Rightarrow> string" where
  "digits n = (if n < 10 then [''0123456789'' ! n]
               else digits (n div 10) @ [''0123456789'' ! (n mod 10)])"

definition itoa :: "int \<Rightarrow> string" where
  "itoa i = (if i < 0 then CHR ''-'' # digits (nat (- i)) else digits (nat i))"

definition padInt :: "int \<Rightarrow> int \<Rightarrow> string" where
  "padInt w i =
     (if w < 0 then itoa i @ replicate (nat (- w) - length (itoa i)) CHR '' ''
      else replicate (nat w - length (itoa i)) CHR '' '' @ itoa i)"

definition quot :: "int \<Rightarrow> int \<Rightarrow> int" where
  "quot a b = sgn a * sgn b * (\<bar>a\<bar> div \<bar>b\<bar>)"

definition rem :: "int \<Rightarrow> int \<Rightarrow> int" where
  "rem a b = a - b * quot a b"

subsection \<open>\<open>setContentString\<close>, \<open>headerStyle\<close>, \<open>ResetScreen\<close>\<close>

definition cellEvent :: "int \<Rightarrow> int \<Rightarrow> content \<Rightarrow> event" where
  "cellEvent px py c = SetContent px py (mainc c) (combc c) (style c)"

definition setContentString :: "int \<Rightarrow> int \<Rightarrow> content list \<Rightarrow> Screen \<Rightarrow> Screen" where
  "setContentString vx vy cs scr =
     scr @ map (\<lambda>(i, c). cellEvent (vx + int i) vy c) (enumerate 0 cs)"

definition headerStyle :: "Env \<Rightarrow> content list \<Rightarrow> content list" where
  "headerStyle E cs = map (\<lambda>c. c\<lparr>style := HeaderStyle E\<rparr>) cs"

definition ResetScreen :: "Root \<Rightarrow> Screen \<Rightarrow> Screen" where
  "ResetScreen root scr =
     scr @ concat (map (\<lambda>py. map (\<lambda>px. SetContent px py 32 [] (StyleNormal StyleDefault))
                                   [0 .. vWidth (Model root) - 1])
                       [0 .. vHight (Model root) - 1])"

subsection \<open>\<open>wrapContents\<close> and \<open>noWrapContents\<close>\<close>

text \<open>
  \<^verbatim>\<open>for x := 0; ; x++ {
      if lX+x >= len(contents) { lX = 0; lY++; break }
      content := contents[lX+x]
      if x+content.width+root.startX > root.Model.vWidth { lX += x; break }
      root.Screen.SetContent(x+root.startX, y, ...) }
  return lX, lY\<close>
  Reading \<open>contents[lX+x]\<close> at a negative index panics.
\<close>

function wrapLoop ::
  "Root \<Rightarrow> int \<Rightarrow> int \<Rightarrow> int \<Rightarrow> content list \<Rightarrow> int \<Rightarrow> Screen \<Rightarrow> error + (Screen \<times> int \<times> int)" where
  "wrapLoop root y lX lY cs x scr =
     (if int (length cs) \<le> lX + x then Inr (scr, 0, lY + 1)
      else if lX + x < 0 then Inl IndexOutOfRange
      else if x + width (cs ! nat (lX + x)) + startX root > vWidth (Model root)
           then Inr (scr, lX + x, lY)
      else wrapLoop root y lX lY cs (x + 1)
             (scr @ [cellEvent (x + startX root) y (cs ! nat (lX + x))]))"
  by pat_completeness auto
termination
  by (relation "measure (\<lambda>(root, y, lX, lY, cs, x, scr). nat (int (length cs) - (lX + x)))") auto

definition wrapContents ::
  "Root \<Rightarrow> int \<Rightarrow> int \<Rightarrow> int \<Rightarrow> content list \<Rightarrow> Screen \<Rightarrow> error + (Screen \<times> int \<times> int)" where
  "wrapContents root y lX lY cs scr = wrapLoop root y lX lY cs 0 scr"

text \<open>
  \<^verbatim>\<open>if lX < root.minStartX { lX = root.minStartX }
  for x := 0; x+root.startX < root.Model.vWidth; x++ {
      if lX+x < 0 { continue }
      if lX+x >= len(contents) { break }
      content := contents[lX+x]
      root.Screen.SetContent(x+root.startX, y, ...) }
  lY++
  return lX, lY\<close>
\<close>

function noWrapLoop :: "Root \<Rightarrow> int \<Rightarrow> int \<Rightarrow> content list \<Rightarrow> int \<Rightarrow> Screen \<Rightarrow> Screen" where
  "noWrapLoop root y lX cs x scr =
     (if x + startX root < vWidth (Model root) then
        (if lX + x < 0 then noWrapLoop root y lX cs (x + 1) scr
         else if int (length cs) \<le> lX + x then scr
         else noWrapLoop root y lX cs (x + 1)
                (scr @ [cellEvent (x + startX root) y (cs ! nat (lX + x))]))
      else scr)"
  by pat_completeness auto
termination
  by (relation "measure (\<lambda>(root, y, lX, cs, x, scr). nat (vWidth (Model root) - startX root - x))") auto

definition noWrapContents ::
  "Root \<Rightarrow> int \<Rightarrow> int \<Rightarrow> int \<Rightarrow> content list \<Rightarrow> Screen \<Rightarrow> Screen \<times> int \<times> int" where
  "noWrapContents root y lX lY cs scr =
     (let lX' = (if lX < minStartX root then minStartX root else lX)
      in (noWrapLoop root y lX' cs 0 scr, lX', lY + 1))"

subsection \<open>\<open>statusDraw\<close>\<close>

definition rightStatus :: "Root \<Rightarrow> string" where
  "rightStatus root =
     ''('' @ itoa (lineNum (Model root)) @ ''/'' @ itoa (BufEndNum (Model root)) @
     (if \<not> BufEOF (Model root) then ''...'' else []) @ '')''"

definition debugMsg :: "Env \<Rightarrow> Root \<Rightarrow> string" where
  "debugMsg E root =
     ''header:'' @ itoa (Header root) @ ''('' @ itoa (HeaderLen E root) @ '') body:'' @
     itoa (lineNum (Model root)) @ ''-'' @ itoa (bottomPos root) @ '' '' @ [CHR 0x0A]"

text \<open>
  The left segment of the status line and the cursor call that goes with it: the prompt and
  the typed value in a prompt mode, the file name and the message in reverse video
  otherwise.
\<close>

definition leftStatus :: "Env \<Rightarrow> Root \<Rightarrow> Screen \<Rightarrow> Screen" where
  "leftStatus E root scr =
     (if mode (Input root) \<noteq> Normal then
        setContentString 0 (statusPos root)
          (strToContents E
             ((if CaseSensitive root then ''(Aa)'' else []) @ prompt (Input root) @
              input_value (Input root)) (- 1))
          (scr @ [ShowCursor
                    (int (length ((if CaseSensitive root then ''(Aa)'' else []) @
                                  prompt (Input root))) + cursorX (Input root))
                    (statusPos root)])
      else
        setContentString 0 (statusPos root)
          (map (\<lambda>c. c\<lparr>style := Reverse (style c) True\<rparr>)
             (strToContents E (FileName (Model root) @ '':'' @ message root) (- 1)))
          (scr @ [ShowCursor
                    (int (length (strToContents E
                            (FileName (Model root) @ '':'' @ message root) (- 1))))
                    (statusPos root)]))"

definition statusDraw :: "Env \<Rightarrow> Root \<Rightarrow> Screen \<Rightarrow> Screen" where
  "statusDraw E root scr =
     (let scr1 = scr @ map (\<lambda>px. SetContent px (statusPos root) 0 [] StyleDefault)
                         [0 .. vWidth (Model root) - 1];
          scr2 = leftStatus E root scr1;
          scr3 = setContentString
                   (vWidth (Model root) - int (length (rightStatus root))) (statusPos root)
                   (strToContents E (rightStatus root) (- 1)) scr2
      in if Debug root
         then setContentString (quot (vWidth (Model root)) 2) (statusPos root)
                (strToContents E (debugMsg E root) 0) scr3
         else scr3)"

subsection \<open>\<open>Draw\<close>\<close>

text \<open>
  The header loop \<^verbatim>\<open>for hy := 0; lY < root.Header; hy++\<close> has no bound on \<open>hy\<close>: it ends
  when \<open>lY\<close> reaches the header count.  It is a partial function; \<open>None\<close> is a loop that
  never ends.
\<close>

definition columnHighlight :: "Env \<Rightarrow> Root \<Rightarrow> string \<Rightarrow> lineContents \<Rightarrow> error + lineContents" where
  "columnHighlight E root line lc =
     (if ColumnMode root then
        reverseContents lc
          (fst (rangePosition E line (ColumnDelimiter root) (columnNum root)))
          (snd (rangePosition E line (ColumnDelimiter root) (columnNum root)))
      else Inr lc)"

definition drawContents ::
  "Root \<Rightarrow> int \<Rightarrow> int \<Rightarrow> int \<Rightarrow> content list \<Rightarrow> Screen \<Rightarrow> error + (Screen \<times> int \<times> int)" where
  "drawContents root y lX lY cs scr =
     (if WrapMode root then wrapContents root y lX lY cs scr
      else Inr (noWrapContents root y (mx (Model root)) lY cs scr))"

partial_function (option) headerLoop ::
  "Env \<Rightarrow> Root \<Rightarrow> int \<Rightarrow> int \<Rightarrow> int \<Rightarrow> Screen \<Rightarrow> (error + (Screen \<times> int \<times> int)) option" where
  "headerLoop E root hy lX lY scr =
     (if lY < Header root then
        (case lineToContents E (Model root) lY (TabWidth root) of
           Inl e \<Rightarrow> headerLoop E root (hy + 1) lX lY scr
         | Inr lc \<Rightarrow>
             (case columnHighlight E root (GetLine (Model root) lY)
                     (lc\<lparr>contents := headerStyle E (contents lc)\<rparr>) of
                Inl e \<Rightarrow> Some (Inl e)
              | Inr lc' \<Rightarrow>
                  (case drawContents root hy lX lY (contents lc') scr of
                     Inl e \<Rightarrow> Some (Inl e)
                   | Inr r \<Rightarrow> headerLoop E root (hy + 1) (fst (snd r)) (snd (snd r)) (fst r))))
      else Some (Inr (scr, lX, lY)))"

declare headerLoop.simps [code]

text \<open>The search highlight: one \<open>reverseContents\<close> for every match span, in order.\<close>

fun searchHighlight :: "lineContents \<Rightarrow> (int \<times> int) list \<Rightarrow> error + lineContents" where
  "searchHighlight lc [] = Inr lc"
| "searchHighlight lc (r # rs) =
     (case reverseContents lc (fst r) (snd r) of
        Inl e \<Rightarrow> Inl e
      | Inr lc' \<Rightarrow> searchHighlight lc' rs)"

definition lineNumber :: "Env \<Rightarrow> Root \<Rightarrow> int \<Rightarrow> int \<Rightarrow> Screen \<Rightarrow> Screen" where
  "lineNumber E root y lY scr =
     (if LineNumMode root then
        setContentString 0 y
          (map (\<lambda>c. c\<lparr>style := Bold StyleDefault True\<rparr>)
             (strToContents E
                (padInt (startX root - 1) (lineNum (Model root) + lY - Header root + 1))
                (TabWidth root)))
          scr
      else scr)"

definition alternateRow :: "Env \<Rightarrow> Root \<Rightarrow> int \<Rightarrow> int \<Rightarrow> Screen \<Rightarrow> Screen" where
  "alternateRow E root y lY scr =
     (if AlternateRows root then
        fold (\<lambda>px s. case GetContent s px y of
                       (r, c, st) \<Rightarrow>
                         s @ [SetContent px y r c
                                (Background st
                                   (if rem (lineNum (Model root) + lY) 2 = 1 then ColorAlternate E
                                    else fst (snd (Decompose StyleDefault))))])
             [0 .. vWidth (Model root) - 1] scr
      else scr)"

text \<open>One body row whose line was fetched: everything between the fetch and \<open>lY = nextY\<close>.\<close>

definition bodyRow ::
  "Env \<Rightarrow> Root \<Rightarrow> int \<Rightarrow> int \<Rightarrow> int \<Rightarrow> lineContents \<Rightarrow> Screen \<Rightarrow> error + (Screen \<times> int \<times> int)" where
  "bodyRow E root y lX lY lc scr =
     (case (case reg (Input root) of
              None \<Rightarrow> Inr (lc\<lparr>contents := map (\<lambda>c. c\<lparr>style := Reverse (style c) False\<rparr>) (contents lc)\<rparr>)
            | Some r \<Rightarrow>
                searchHighlight
                  (lc\<lparr>contents := map (\<lambda>c. c\<lparr>style := Reverse (style c) False\<rparr>) (contents lc)\<rparr>)
                  (searchPosition (GetLine (Model root) (lineNum (Model root) + lY)) r)) of
        Inl e \<Rightarrow> Inl e
      | Inr lc1 \<Rightarrow>
          (case columnHighlight E root (GetLine (Model root) (lineNum (Model root) + lY)) lc1 of
             Inl e \<Rightarrow> Inl e
           | Inr lc2 \<Rightarrow>
               (case drawContents root y lX lY (contents lc2) (lineNumber E root y lY scr) of
                  Inl e \<Rightarrow> Inl e
                | Inr r \<Rightarrow> Inr (alternateRow E root y lY (fst r), fst (snd r), snd (snd r)))))"

function bodyLoop ::
  "Env \<Rightarrow> Root \<Rightarrow> int \<Rightarrow> int \<Rightarrow> int \<Rightarrow> Screen \<Rightarrow> error + (Screen \<times> int \<times> int)" where
  "bodyLoop E root y lX lY scr =
     (if y < vHight (Model root) then
        (case lineToContents E (Model root) (lineNum (Model root) + lY) (TabWidth root) of
           Inl e \<Rightarrow>
             bodyLoop E root (y + 1) lX lY
               (scr @ [SetContent 0 y 126 [] (Foreground StyleDefault ColorGray)])
         | Inr lc \<Rightarrow>
             (case bodyRow E root y lX lY lc scr of
                Inl e \<Rightarrow> Inl e
              | Inr r \<Rightarrow> bodyLoop E root (y + 1) (fst (snd r)) (snd (snd r)) (fst r)))
      else Inr (scr, lX, lY))"
  by pat_completeness auto
termination
  by (relation "measure (\<lambda>(E, root, y, lX, lY, scr). nat (vHight (Model root) - y))") auto

text \<open>The anchor after the two comparisons with \<open>bottom + 1\<close> and with \<open>0\<close>.\<close>

definition clampLineNum :: "Env \<Rightarrow> Root \<Rightarrow> Root" where
  "clampLineNum E root =
     (let bottom = bottomLineNum E root (BufEndNum (Model root)) - Header root;
          root1 = (if lineNum (Model root) > bottom + 1
                   then root\<lparr>Model := (Model root)\<lparr>lineNum := bottom + 1\<rparr>\<rparr> else root)
      in if lineNum (Model root1) < 0
         then root1\<lparr>Model := (Model root1)\<lparr>lineNum := 0\<rparr>\<rparr> else root1)"

definition setBottomPos :: "Root \<Rightarrow> int \<Rightarrow> Root" where
  "setBottomPos root lY =
     (if lY > 0 then root\<lparr>bottomPos := lineNum (Model root) + lY - 1\<rparr>
      else root\<lparr>bottomPos := lineNum (Model root) + 1\<rparr>)"

definition finishDraw :: "Env \<Rightarrow> Root \<Rightarrow> Root" where
  "finishDraw E root = root\<lparr>Screen := statusDraw E root (Screen root) @ [Show]\<rparr>"

definition Draw :: "Env \<Rightarrow> Root \<Rightarrow> (error + Root) option" where
  "Draw E root =
     (if BufEndNum (Model root) = 0 \<or> vHight (Model root) = 0 then
        Some (Inr (finishDraw E (root\<lparr>Model := (Model root)\<lparr>lineNum := 0\<rparr>\<rparr>)))
      else
        (let root1 = clampLineNum E (root\<lparr>Screen := ResetScreen root (Screen root)\<rparr>)
         in (case headerLoop E root1 0 0 0 (Screen root1) of
               None \<Rightarrow> None
             | Some (Inl e) \<Rightarrow> Some (Inl e)
             | Some (Inr h) \<Rightarrow>
                 (case bodyLoop E (root1\<lparr>Screen := fst h\<rparr>)
                         (HeaderLen E (root1\<lparr>Screen := fst h\<rparr>))
                         (yy (Model root1) * vWidth (Model root1)) (snd (snd h)) (fst h) of
                    Inl e \<Rightarrow> Some (Inl e)
                  | Inr b \<Rightarrow>
                      Some (Inr (finishDraw E
                                   (setBottomPos (root1\<lparr>Screen := fst b\<rparr>) (snd (snd b)))))))))"

section \<open>Example inputs\<close>

text \<open>A line of two cells \<open>a\<close>, one byte each, and the same line with its first cell reversed.\<close>

definition cellA :: content where
  "cellA = \<lparr>width = 1, mainc = 97, combc = [], style = StyleDefault\<rparr>"

definition lineA :: lineContents where
  "lineA = \<lparr>contents = [cellA, cellA], byteMap = [0 \<mapsto> 0, 1 \<mapsto> 1, 2 \<mapsto> 2]\<rparr>"

definition lineA1 :: lineContents where
  "lineA1 = \<lparr>contents = [cellA\<lparr>style := Reverse StyleDefault True\<rparr>, cellA],
            byteMap = [0 \<mapsto> 0, 1 \<mapsto> 1, 2 \<mapsto> 2]\<rparr>"

text \<open>
  A view of ten columns and three body rows without gutter on a one-line document, a layout
  that makes one cell of width 1 of every byte, and a line of 25 such cells.
\<close>

definition modelA :: Model where
  "modelA = \<lparr>buffer = [''ab''], lineNum = 0, mx = 0, yy = 0, vWidth = 10, vHight = 3,
             FileName = ''f'', eof = True\<rparr>"

definition inputA :: Input where
  "inputA = \<lparr>mode = Normal, input_value = [], cursorX = 0, reg = None, prompt = []\<rparr>"

definition rootA :: Root where
  "rootA = \<lparr>Model = modelA, Screen = [], Header = 0, TabWidth = 8, ColumnMode = False,
            ColumnDelimiter = '','', columnNum = 0, WrapMode = False, LineNumMode = False,
            AlternateRows = False, startX = 0, minStartX = 0, statusPos = 3, bottomPos = 0,
            message = [], CaseSensitive = False, Input = inputA, Debug = False\<rparr>"

definition byteCell :: "char \<Rightarrow> content" where
  "byteCell ch = \<lparr>width = 1, mainc = of_char ch, combc = [], style = StyleDefault\<rparr>"

definition envA :: Env where
  "envA = \<lparr>layout = (\<lambda>s tw. \<lparr>contents = map byteCell s,
                               byteMap = (\<lambda>i. if 0 \<le> i \<and> i \<le> int (length s)
                                               then Some i else None)\<rparr>),
           rangePosition = (\<lambda>line d n. (0, 1)),
           bottomLineNum = (\<lambda>root n. 0),
           HeaderLen = (\<lambda>root. Header root),
           HeaderStyle = Bold StyleDefault True,
           ColorAlternate = 4\<rparr>"

definition line25 :: "content list" where
  "line25 = replicate 25 cellA"

text \<open>Whether the cell at offset \<open>x\<close> of a window that starts at cell \<open>lX\<close> is a cell of the line.\<close>

definition inLine :: "content list \<Rightarrow> int \<Rightarrow> int \<Rightarrow> bool" where
  "inLine cs lX x \<longleftrightarrow> 0 \<le> lX + x \<and> lX + x < int (length cs)"


text \<open>The end-of-document marker of the body loop on the row \<open>py\<close>.\<close>

definition tilde :: "int \<Rightarrow> event" where
  "tilde py = SetContent 0 py 126 [] (Foreground StyleDefault ColorGray)"


definition rootF :: Root where
  "rootF = rootA\<lparr>Model := modelA\<lparr>lineNum := 1\<rparr>\<rparr>"


definition modelC :: Model where
  "modelC = \<lparr>buffer = [''a'', ''b''], lineNum = 0, mx = 0, yy = 0, vWidth = 2, vHight = 3,
             FileName = ''f'', eof = True\<rparr>"


definition rootD :: Root where
  "rootD = rootA\<lparr>Model := modelC\<lparr>buffer := [''a'']\<rparr>, Header := 2\<rparr>"






section \<open>Properties of \<open>reverseContents\<close>\<close>

declare reverseLoop.simps [simp del]

lemma reverseLoop_length:
  "reverseLoop n hi cs = Inr cs' \<Longrightarrow> length cs' = length cs"
proof (induction n hi cs rule: reverseLoop.induct)
  case (1 n hi cs)
  show ?case
  proof (cases "n < hi")
    case True
    with "1.prems" have ok: "\<not> (n < 0 \<or> int (length cs) \<le> n)"
      by (subst (asm) reverseLoop.simps) (auto split: if_splits)
    with True "1.prems" have
      "reverseLoop (n + 1) hi
         (cs[nat n := (cs ! nat n)\<lparr>style := Reverse (style (cs ! nat n)) True\<rparr>]) = Inr cs'"
      by (subst (asm) reverseLoop.simps) simp
    from "1.IH" [OF True ok this] show ?thesis by simp
  next
    case False
    with "1.prems" show ?thesis by (subst (asm) reverseLoop.simps) simp
  qed
qed

lemma reverseLoop_nth:
  "reverseLoop n hi cs = Inr cs' \<Longrightarrow> i < length cs \<Longrightarrow>
   cs' ! i = (if n \<le> int i \<and> int i < hi
              then (cs ! i)\<lparr>style := Reverse (style (cs ! i)) True\<rparr> else cs ! i)"
proof (induction n hi cs arbitrary: i rule: reverseLoop.induct)
  case (1 n hi cs)
  show ?case
  proof (cases "n < hi")
    case True
    with "1.prems" have ok: "\<not> (n < 0 \<or> int (length cs) \<le> n)"
      by (subst (asm) reverseLoop.simps) (auto split: if_splits)
    let ?cs = "cs[nat n := (cs ! nat n)\<lparr>style := Reverse (style (cs ! nat n)) True\<rparr>]"
    from True ok "1.prems" have rec: "reverseLoop (n + 1) hi ?cs = Inr cs'"
      by (subst (asm) reverseLoop.simps) simp
    from "1.prems" have len: "i < length ?cs" by simp
    from "1.IH" [OF True ok rec len] have
      "cs' ! i = (if n + 1 \<le> int i \<and> int i < hi
                  then (?cs ! i)\<lparr>style := Reverse (style (?cs ! i)) True\<rparr> else ?cs ! i)" .
    with True ok "1.prems"(2) show ?thesis
      by (cases "int i = n") (auto simp: nth_list_update)
  next
    case False
    with "1.prems" show ?thesis by (subst (asm) reverseLoop.simps) auto
  qed
qed

lemma reverseLoop_succeeds:
  "hi \<le> n \<or> (0 \<le> n \<and> hi \<le> int (length cs)) \<Longrightarrow> \<exists>cs'. reverseLoop n hi cs = Inr cs'"
proof (induction n hi cs rule: reverseLoop.induct)
  case (1 n hi cs)
  show ?case
  proof (cases "n < hi")
    case True
    with "1.prems" have ok: "\<not> (n < 0 \<or> int (length cs) \<le> n)" by auto
    let ?cs = "cs[nat n := (cs ! nat n)\<lparr>style := Reverse (style (cs ! nat n)) True\<rparr>]"
    from "1.prems" True have "hi \<le> n + 1 \<or> (0 \<le> n + 1 \<and> hi \<le> int (length ?cs))" by auto
    from "1.IH" [OF True ok this] obtain cs' where "reverseLoop (n + 1) hi ?cs = Inr cs'" ..
    with True ok show ?thesis by (subst reverseLoop.simps) simp
  next
    case False
    then show ?thesis by (subst reverseLoop.simps) simp
  qed
qed

lemma reverseLoop_fails:
  "n < hi \<Longrightarrow> n < 0 \<or> int (length cs) < hi \<Longrightarrow> reverseLoop n hi cs = Inl IndexOutOfRange"
proof (induction n hi cs rule: reverseLoop.induct)
  case (1 n hi cs)
  show ?case
  proof (cases "n < 0 \<or> int (length cs) \<le> n")
    case True
    with "1.prems" show ?thesis by (subst reverseLoop.simps) simp
  next
    case False
    let ?cs = "cs[nat n := (cs ! nat n)\<lparr>style := Reverse (style (cs ! nat n)) True\<rparr>]"
    from False "1.prems" have a: "n + 1 < hi" and b: "n + 1 < 0 \<or> int (length ?cs) < hi"
      by auto
    from "1.IH" [OF "1.prems"(1) False a b] "1.prems"(1) False show ?thesis
      by (subst reverseLoop.simps) simp
  qed
qed

lemma Reverse_True_idem: "Reverse (Reverse s True) True = Reverse s True"
  by (simp add: Reverse_def setAttrs_def)

lemma Reverse_True_fixed: "AttrReverse \<in> attrs s \<Longrightarrow> Reverse s True = s"
  by (simp add: Reverse_def setAttrs_def insert_absorb)

lemma Reverse_True_attr: "AttrReverse \<in> attrs (Reverse s True)"
  by (simp add: Reverse_def setAttrs_def)

lemma reverseContents_result:
  assumes "reverseContents lc start end' = Inr lc1"
  shows "byteMap lc1 = byteMap lc" and "length (contents lc1) = length (contents lc)"
    and "i < length (contents lc) \<Longrightarrow>
         contents lc1 ! i =
           (if byteMapAt lc start \<le> int i \<and> int i < byteMapAt lc end'
            then (contents lc ! i)\<lparr>style := Reverse (style (contents lc ! i)) True\<rparr>
            else contents lc ! i)"
proof -
  from assms obtain cs where loop: "reverseLoop (byteMapAt lc start) (byteMapAt lc end') (contents lc) = Inr cs"
    and lc1: "lc1 = lc\<lparr>contents := cs\<rparr>"
    by (auto simp: reverseContents_def split: sum.splits)
  from lc1 show "byteMap lc1 = byteMap lc" by simp
  from lc1 reverseLoop_length [OF loop] show "length (contents lc1) = length (contents lc)" by simp
  assume "i < length (contents lc)"
  from reverseLoop_nth [OF loop this] lc1 show "contents lc1 ! i =
           (if byteMapAt lc start \<le> int i \<and> int i < byteMapAt lc end'
            then (contents lc ! i)\<lparr>style := Reverse (style (contents lc ! i)) True\<rparr>
            else contents lc ! i)" by simp
qed

lemma reverseContents_succeeds:
  assumes "lc_inv lc n" "0 \<le> start" "start \<le> end'" "end' \<le> n"
  shows "\<exists>lc1. reverseContents lc start end' = Inr lc1"
proof -
  from assms have "0 \<le> byteMapAt lc start" "byteMapAt lc end' \<le> int (length (contents lc))"
    unfolding lc_inv_def by (metis order.trans order_refl)+
  then obtain cs where "reverseLoop (byteMapAt lc start) (byteMapAt lc end') (contents lc) = Inr cs"
    using reverseLoop_succeeds by blast
  then show ?thesis by (simp add: reverseContents_def)
qed

lemma reverseContents_again:
  assumes r: "reverseContents lc start end' = Inr lc1"
  shows "reverseContents lc1 start end' = Inr lc1"
proof -
  let ?lo = "byteMapAt lc start" and ?hi = "byteMapAt lc end'"
  from r obtain cs where loop: "reverseLoop ?lo ?hi (contents lc) = Inr cs"
    and lc1: "lc1 = lc\<lparr>contents := cs\<rparr>"
    by (auto simp: reverseContents_def split: sum.splits)
  have bm: "byteMapAt lc1 = byteMapAt lc" using lc1 by (simp add: byteMapAt_def fun_eq_iff)
  have len: "length cs = length (contents lc)" by (rule reverseLoop_length [OF loop])
  have ok: "?hi \<le> ?lo \<or> (0 \<le> ?lo \<and> ?hi \<le> int (length cs))"
  proof (rule ccontr)
    assume "\<not> ?thesis"
    then have "?lo < ?hi" "?lo < 0 \<or> int (length (contents lc)) < ?hi" using len by auto
    from reverseLoop_fails [OF this] loop show False by simp
  qed
  from reverseLoop_succeeds [OF ok] obtain cs2 where loop2: "reverseLoop ?lo ?hi cs = Inr cs2" ..
  have "cs2 = cs"
  proof (rule nth_equalityI)
    show "length cs2 = length cs" by (rule reverseLoop_length [OF loop2])
  next
    fix i assume "i < length cs2"
    then have i: "i < length cs" using reverseLoop_length [OF loop2] by simp
    then have i': "i < length (contents lc)" using len by simp
    show "cs2 ! i = cs ! i"
      using reverseLoop_nth [OF loop2 i] reverseLoop_nth [OF loop i']
      by (simp add: Reverse_True_idem)
  qed
  with loop2 lc1 bm show ?thesis by (simp add: reverseContents_def)
qed

text \<open>
  C1 (as amended).  For line contents that satisfy the invariant and byte offsets
  \<open>0 \<le> start \<le> end \<le> len(line)\<close>, \<open>reverseContents\<close> returns, and applying it a second time
  to the same range changes nothing more: it sets the reverse attribute of every cell of the
  range (\<open>Reverse(true)\<close>) and does not toggle it.  After one or two applications a cell of
  the range has its original style with the reverse attribute set, so its original style is
  back only where that attribute was set before; the cells outside the range are unchanged.
\<close>

theorem reverseContents_twice:
  assumes "lc_inv lc n" and "0 \<le> start" and "start \<le> end'" and "end' \<le> n"
  shows "\<exists>lc1. reverseContents lc start end' = Inr lc1 \<and>
           reverseContents lc1 start end' = Inr lc1 \<and>
           length (contents lc1) = length (contents lc) \<and>
           (\<forall>i < length (contents lc).
              contents lc1 ! i =
                (if byteMapAt lc start \<le> int i \<and> int i < byteMapAt lc end'
                 then (contents lc ! i)\<lparr>style := Reverse (style (contents lc ! i)) True\<rparr>
                 else contents lc ! i))"
proof -
  from reverseContents_succeeds [OF assms] obtain lc1
    where r: "reverseContents lc start end' = Inr lc1" ..
  from r reverseContents_again [OF r] reverseContents_result [OF r] show ?thesis by blast
qed

lemma lc_inv_lineA: "lc_inv lineA 2"
  unfolding lc_inv_def by (auto simp: lineA_def byteMapAt_def)

lemma reverseContents_lineA: "reverseContents lineA 0 1 = Inr lineA1"
  by (simp add: reverseContents_def lineA_def lineA1_def byteMapAt_def reverseLoop.simps cellA_def)

lemma reverseContents_lineA1: "reverseContents lineA1 0 1 = Inr lineA1"
  by (simp add: reverseContents_def lineA1_def byteMapAt_def reverseLoop.simps cellA_def Reverse_def setAttrs_def)

theorem reverseContents_twice_witness:
  "lc_inv lineA 2 \<and> (0::int) \<le> 0 \<and> (0::int) \<le> 1 \<and> (1::int) \<le> 2 \<and>
   reverseContents lineA 0 1 = Inr lineA1 \<and> reverseContents lineA1 0 1 = Inr lineA1"
  using reverseContents_twice [OF lc_inv_lineA, of 0 1] reverseContents_lineA
  by (auto simp: lc_inv_lineA)

text \<open>
  C1 as stated fails: the first cell of \<open>lineA\<close> is not reversed; after two applications to
  the byte range \<open>[0, 1)\<close> it is reversed, so its original style is not restored.
\<close>

theorem reverseContents_twice_counterexample:
  "reverseContents lineA 0 1 = Inr lineA1 \<and> reverseContents lineA1 0 1 = Inr lineA1 \<and>
   style (contents lineA1 ! 0) \<noteq> style (contents lineA ! 0)"
proof -
  have "style (contents lineA1 ! 0) \<noteq> style (contents lineA ! 0)"
    by (simp add: lineA_def lineA1_def cellA_def Reverse_def setAttrs_def StyleDefault_def)
  with reverseContents_lineA reverseContents_lineA1 show ?thesis by blast
qed

text \<open>
  C10.  When \<open>reverseContents lc start end\<close> returns, \<open>byteMap\<close> and the number of cells are
  unchanged, every cell keeps its rune, its combining runes and its width, and a cell whose
  index is outside \<open>[byteMap[start], byteMap[end])\<close> is unchanged in every field: only the
  style of the cells of the range is written.
\<close>

theorem reverseContents_frame:
  assumes "reverseContents lc start end' = Inr lc1"
  shows "byteMap lc1 = byteMap lc \<and> length (contents lc1) = length (contents lc) \<and>
         (\<forall>i < length (contents lc).
            mainc (contents lc1 ! i) = mainc (contents lc ! i) \<and>
            combc (contents lc1 ! i) = combc (contents lc ! i) \<and>
            width (contents lc1 ! i) = width (contents lc ! i) \<and>
            (\<not> (byteMapAt lc start \<le> int i \<and> int i < byteMapAt lc end') \<longrightarrow>
               contents lc1 ! i = contents lc ! i))"
  using reverseContents_result [OF assms] by simp

theorem reverseContents_frame_witness:
  "reverseContents lineA 0 1 = Inr lineA1 \<and> byteMap lineA1 = byteMap lineA \<and>
   length (contents lineA1) = length (contents lineA) \<and>
   mainc (contents lineA1 ! 0) = mainc (contents lineA ! 0) \<and>
   contents lineA1 ! 1 = contents lineA ! 1"
  using reverseContents_frame [OF reverseContents_lineA] reverseContents_lineA
  by (simp add: lineA_def lineA1_def)

section \<open>Properties of the row drawing\<close>

declare noWrapLoop.simps [simp del] wrapLoop.simps [simp del]

lemma noWrapLoop_events:
  "noWrapLoop root y lX cs x scr =
     scr @ map (\<lambda>x. cellEvent (x + startX root) y (cs ! nat (lX + x)))
             (filter (inLine cs lX) [x .. vWidth (Model root) - startX root - 1])"
proof (induction root y lX cs x scr rule: noWrapLoop.induct)
  case (1 root y lX cs x scr)
  let ?hi = "vWidth (Model root) - startX root - 1"
  show ?case
  proof (cases "x + startX root < vWidth (Model root)")
    case False
    then have "[x .. ?hi] = []" by simp
    with False show ?thesis by (subst noWrapLoop.simps) simp
  next
    case True
    then have up: "[x .. ?hi] = x # [x + 1 .. ?hi]" by (simp add: upto_rec1)
    consider (left) "lX + x < 0" | (eol) "int (length cs) \<le> lX + x"
      | (cell) "0 \<le> lX + x" "lX + x < int (length cs)" by linarith
    then show ?thesis
    proof cases
      case left
      then have "\<not> inLine cs lX x" by (simp add: inLine_def)
      with left True "1.IH"(1) [OF True left] up show ?thesis
        by (subst noWrapLoop.simps) simp
    next
      case eol
      then have "filter (inLine cs lX) [x .. ?hi] = []"
        by (auto simp: filter_empty_conv inLine_def)
      with True eol show ?thesis by (subst noWrapLoop.simps) simp
    next
      case cell
      then have a: "\<not> lX + x < 0" and b: "\<not> int (length cs) \<le> lX + x" by auto
      from cell have "inLine cs lX x" by (simp add: inLine_def)
      with True "1.IH"(2) [OF True a b] up a b show ?thesis
        by (subst noWrapLoop.simps) simp
    qed
  qed
qed

text \<open>
  C5.  For every horizontal offset \<open>lX\<close>, every cell list and every view, \<open>noWrapContents\<close>
  clips to the window that starts at cell \<open>max(lX, minStartX)\<close>: for the offsets
  \<open>x = 0, 1, ...\<close> with \<open>x + startX < vWidth\<close> it writes the cell \<open>lX + x\<close> at the column
  \<open>x + startX\<close> of row \<open>y\<close> when that cell exists, skipping the offsets left of the line and
  ending at the end of the line, and it returns the window start and \<open>lY + 1\<close>.  So every
  cell it writes is at a column in \<open>[startX, vWidth)\<close>.
\<close>

theorem noWrapContents_window:
  "noWrapContents root y lX lY cs scr =
     (scr @ map (\<lambda>x. cellEvent (x + startX root) y (cs ! nat (max lX (minStartX root) + x)))
              (filter (inLine cs (max lX (minStartX root)))
                 [0 .. vWidth (Model root) - startX root - 1]),
      max lX (minStartX root), lY + 1) \<and>
   (\<forall>e \<in> set (drop (length scr) (fst (noWrapContents root y lX lY cs scr))).
      \<exists>px i. e = cellEvent px y (cs ! i) \<and> startX root \<le> px \<and> px < vWidth (Model root) \<and>
             i < length cs \<and> int i = max lX (minStartX root) + (px - startX root))"
proof -
  let ?lX = "max lX (minStartX root)"
  let ?new = "map (\<lambda>x. cellEvent (x + startX root) y (cs ! nat (?lX + x)))
               (filter (inLine cs ?lX) [0 .. vWidth (Model root) - startX root - 1])"
  have lx: "(if lX < minStartX root then minStartX root else lX) = ?lX" by simp
  have eq: "noWrapContents root y lX lY cs scr = (scr @ ?new, ?lX, lY + 1)"
    unfolding noWrapContents_def Let_def lx by (simp add: noWrapLoop_events)
  have "\<exists>px i. e = cellEvent px y (cs ! i) \<and> startX root \<le> px \<and> px < vWidth (Model root) \<and>
             i < length cs \<and> int i = ?lX + (px - startX root)" if "e \<in> set ?new" for e
  proof -
    from that obtain x where x: "0 \<le> x" "x \<le> vWidth (Model root) - startX root - 1"
      "inLine cs ?lX x" and e: "e = cellEvent (x + startX root) y (cs ! nat (?lX + x))"
      by auto
    from x(3) have "nat (?lX + x) < length cs" "int (nat (?lX + x)) = ?lX + (x + startX root - startX root)"
      by (auto simp: inLine_def)
    with x e show ?thesis by (intro exI [of _ "x + startX root"] exI [of _ "nat (?lX + x)"]) auto
  qed
  with eq show ?thesis by simp
qed

lemma wrap_step:
  "\<not> int (length cs) \<le> lX + x \<Longrightarrow> 0 \<le> lX + x \<Longrightarrow>
   \<not> x + width (cs ! nat (lX + x)) + startX root > vWidth (Model root) \<Longrightarrow>
   wrapLoop root y lX lY cs x scr =
     wrapLoop root y lX lY cs (x + 1) (scr @ [cellEvent (x + startX root) y (cs ! nat (lX + x))])"
  by (subst wrapLoop.simps) simp

lemma wrap_eol:
  "int (length cs) \<le> lX + x \<Longrightarrow> wrapLoop root y lX lY cs x scr = Inr (scr, 0, lY + 1)"
  by (subst wrapLoop.simps) simp

lemma wrap_full:
  "\<not> int (length cs) \<le> lX + x \<Longrightarrow> 0 \<le> lX + x \<Longrightarrow>
   x + width (cs ! nat (lX + x)) + startX root > vWidth (Model root) \<Longrightarrow>
   wrapLoop root y lX lY cs x scr = Inr (scr, lX + x, lY)"
  by (subst wrapLoop.simps) simp

text \<open>
  C3.  For a logical line of 25 cells of width 1, a view 10 columns wide and no gutter
  (\<open>startX = 0\<close>), wrap drawing takes three screen rows: the first call writes the cells
  0 to 9 and returns the offset 10 with \<open>lY\<close> unchanged, the second (from the offset 10)
  writes the cells 10 to 19 and returns the offset 20 with \<open>lY\<close> unchanged, the third (from
  the offset 20) writes the cells 20 to 24 and returns the offset 0 and \<open>lY + 1\<close>.
\<close>

theorem wrapContents_25_in_10:
  assumes len: "length cs = 25" and w: "\<forall>c \<in> set cs. width c = 1"
    and vw: "vWidth (Model root) = 10" and sx: "startX root = 0"
  shows "wrapContents root y 0 lY cs scr =
           Inr (scr @ map (\<lambda>x. cellEvent (int x) y (cs ! x)) [0 ..< 10], 10, lY) \<and>
         wrapContents root (y + 1) 10 lY cs scr1 =
           Inr (scr1 @ map (\<lambda>x. cellEvent (int x) (y + 1) (cs ! (10 + x))) [0 ..< 10], 20, lY) \<and>
         wrapContents root (y + 2) 20 lY cs scr2 =
           Inr (scr2 @ map (\<lambda>x. cellEvent (int x) (y + 2) (cs ! (20 + x))) [0 ..< 5], 0, lY + 1)"
proof -
  have wd: "width (cs ! i) = 1" if "i < 25" for i
    using w len that by (simp add: nth_mem)
  have u10: "[0 ..< 10] = [0, 1, 2, 3, 4, 5, 6, 7, 8, 9::nat]" by code_simp
  have u5: "[0 ..< 5] = [0, 1, 2, 3, 4::nat]" by code_simp
  show ?thesis
    unfolding wrapContents_def
    by (simp add: wrap_step wrap_eol wrap_full len vw sx wd u10 u5)
qed


theorem wrapContents_25_in_10_witness:
  "wrapContents rootA 0 0 0 line25 [] = Inr (map (\<lambda>x. cellEvent (int x) 0 cellA) [0 ..< 10], 10, 0) \<and>
   wrapContents rootA 1 10 0 line25 [] = Inr (map (\<lambda>x. cellEvent (int x) 1 cellA) [0 ..< 10], 20, 0) \<and>
   wrapContents rootA 2 20 0 line25 [] = Inr (map (\<lambda>x. cellEvent (int x) 2 cellA) [0 ..< 5], 0, 1)"
proof -
  have a: "length line25 = 25" and b: "\<forall>c \<in> set line25. width c = 1"
    by (simp_all add: line25_def cellA_def)
  have c: "vWidth (Model rootA) = 10" and d: "startX rootA = 0"
    by (simp_all add: rootA_def modelA_def)
  from wrapContents_25_in_10 [OF a b c d, of 0 0 "[]" "[]" "[]"] show ?thesis
    by (simp add: line25_def)
qed

theorem noWrapContents_window_witness:
  "noWrapContents rootA 0 (- 3) 0 [cellA, cellA] [] =
     ([cellEvent 0 0 cellA, cellEvent 1 0 cellA], 0, 1)"
proof -
  have "[0 .. vWidth (Model rootA) - startX rootA - 1] = [0, 1, 2, 3, 4, 5, 6, 7, 8, 9]"
    by (simp add: rootA_def modelA_def upto_rec1)
  with conjunct1 [OF noWrapContents_window [of rootA 0 "- 3" 0 "[cellA, cellA]" "[]"]]
  show ?thesis by (simp add: rootA_def modelA_def inLine_def)
qed

section \<open>Properties of the status line and of the empty draw\<close>












section \<open>Properties of the draw cycle\<close>

declare bodyLoop.simps [simp del]

lemma bodyLoop_eof_rows:
  "lineToContents E (Model root) (lineNum (Model root) + lY) (TabWidth root) = Inl e \<Longrightarrow>
   bodyLoop E root y lX lY scr = Inr (scr @ map tilde [y .. vHight (Model root) - 1], lX, lY)"
proof (induction E root y lX lY scr rule: bodyLoop.induct)
  case (1 E root y lX lY scr)
  show ?case
  proof (cases "y < vHight (Model root)")
    case True
    then have "[y .. vHight (Model root) - 1] = y # [y + 1 .. vHight (Model root) - 1]"
      by (simp add: upto_rec1)
    with True "1.IH"(1) [OF True "1.prems" "1.prems"] "1.prems" show ?thesis
      by (subst bodyLoop.simps) (simp add: tilde_def)
  next
    case False
    then show ?thesis by (subst bodyLoop.simps) simp
  qed
qed

lemma lastCell_append:
  "lastCell (xs @ ys) px py = (case lastCell ys px py of Some c \<Rightarrow> Some c | None \<Rightarrow> lastCell xs px py)"
  by (induction xs) (auto split: option.splits)

lemma lastCell_tilde:
  "lastCell (map tilde rows) px py =
     (if px = 0 \<and> py \<in> set rows then Some (126, [], Foreground StyleDefault ColorGray) else None)"
  by (induction rows) (auto simp: tilde_def split: option.splits)

lemma lastCell_unique:
  "SetContent px py r c s \<in> set es \<Longrightarrow>
   (\<And>r' c' s'. SetContent px py r' c' s' \<in> set es \<Longrightarrow> (r', c', s') = (r, c, s)) \<Longrightarrow>
   lastCell es px py = Some (r, c, s)"
proof (induction es)
  case Nil
  then show ?case by simp
next
  case (Cons e es)
  show ?case
  proof (cases "lastCell es px py")
    case None
    have "SetContent px py r c s \<notin> set es"
    proof
      assume m: "SetContent px py r c s \<in> set es"
      from Cons.IH [OF m] Cons.prems(2) None show False by simp
    qed
    with Cons.prems(1) have "e = SetContent px py r c s" by simp
    with None show ?thesis by simp
  next
    case (Some v)
    have "\<exists>r' c' s'. SetContent px py r' c' s' \<in> set es \<and> v = (r', c', s')"
      using Some
    proof (induction es)
      case Nil
      then show ?case by simp
    next
      case (Cons a as)
      then show ?case by (auto split: option.splits event.splits if_splits)
    qed
    then obtain r' c' s' where "SetContent px py r' c' s' \<in> set es" "v = (r', c', s')" by blast
    with Cons.prems(2) [of r' c' s'] Some show ?thesis by simp
  qed
qed

lemma GetContent_ResetScreen:
  assumes "0 \<le> px" "px < vWidth (Model root)" "0 \<le> py" "py < vHight (Model root)"
  shows "GetContent (ResetScreen root scr) px py = (32, [], StyleNormal StyleDefault)"
proof -
  let ?blank = "concat (map (\<lambda>py. map (\<lambda>px. SetContent px py 32 [] (StyleNormal StyleDefault))
                                   [0 .. vWidth (Model root) - 1])
                       [0 .. vHight (Model root) - 1])"
  have m: "SetContent px py 32 [] (StyleNormal StyleDefault) \<in> set ?blank"
    using assms by (auto intro!: bexI [of _ py] image_eqI [of _ _ px])
  have "lastCell ?blank px py = Some (32, [], StyleNormal StyleDefault)"
    by (rule lastCell_unique [OF m]) auto
  then show ?thesis by (simp add: GetContent_def ResetScreen_def lastCell_append)
qed

text \<open>
  C6.  When the line of a body row is at or past the line count, so that fetching its
  contents fails with \<open>OutOfRange\<close>, the body loop does not fail: it writes the single rune
  \<open>~\<close> in gray at column 0 of that row and goes on with the next row, with the same \<open>lX\<close> and
  \<open>lY\<close>.  As the same line is fetched for every later row, the loop returns with one marker on
  each of the rows \<open>y, ..., vHight - 1\<close>.  On the row \<open>y\<close> the cell of column 0 is then the
  marker, and every other cell is what it was before the row was drawn: on a screen that
  \<open>ResetScreen\<close> has just cleared, the blank cell.
\<close>

theorem bodyLoop_end_of_document:
  assumes past: "BufEndNum (Model root) \<le> lineNum (Model root) + lY"
    and row: "y < vHight (Model root)"
  shows "bodyLoop E root y lX lY scr = bodyLoop E root (y + 1) lX lY (scr @ [tilde y]) \<and>
         bodyLoop E root y lX lY scr =
           Inr (scr @ tilde y # map tilde [y + 1 .. vHight (Model root) - 1], lX, lY) \<and>
         GetContent (scr @ tilde y # map tilde [y + 1 .. vHight (Model root) - 1]) 0 y =
           (126, [], Foreground StyleDefault ColorGray) \<and>
         (\<forall>px. px \<noteq> 0 \<longrightarrow>
            GetContent (scr @ tilde y # map tilde [y + 1 .. vHight (Model root) - 1]) px y =
            GetContent scr px y) \<and>
         (\<forall>px scr0. scr = ResetScreen root scr0 \<and> 0 < px \<and> px < vWidth (Model root) \<and> 0 \<le> y \<longrightarrow>
            GetContent (scr @ tilde y # map tilde [y + 1 .. vHight (Model root) - 1]) px y =
            (32, [], StyleNormal StyleDefault))"
proof -
  from past have f: "lineToContents E (Model root) (lineNum (Model root) + lY) (TabWidth root) = Inl OutOfRange"
    by (simp add: lineToContents_def)
  from row have up: "[y .. vHight (Model root) - 1] = y # [y + 1 .. vHight (Model root) - 1]"
    by (simp add: upto_rec1)
  have a: "bodyLoop E root y lX lY scr = bodyLoop E root (y + 1) lX lY (scr @ [tilde y])"
    using row f by (subst bodyLoop.simps) (simp add: tilde_def)
  have b: "bodyLoop E root y lX lY scr =
           Inr (scr @ tilde y # map tilde [y + 1 .. vHight (Model root) - 1], lX, lY)"
    using bodyLoop_eof_rows [OF f, of y lX scr] up by simp
  have l: "tilde y # map tilde [y + 1 .. vHight (Model root) - 1] = map tilde [y .. vHight (Model root) - 1]"
    using up by simp
  have c: "GetContent (scr @ tilde y # map tilde [y + 1 .. vHight (Model root) - 1]) 0 y =
           (126, [], Foreground StyleDefault ColorGray)"
    unfolding l using row by (simp add: GetContent_def lastCell_append lastCell_tilde)
  have d: "GetContent (scr @ tilde y # map tilde [y + 1 .. vHight (Model root) - 1]) px y =
            GetContent scr px y" if "px \<noteq> 0" for px
    unfolding l using that by (simp add: GetContent_def lastCell_append lastCell_tilde)
  have e: "GetContent (scr @ tilde y # map tilde [y + 1 .. vHight (Model root) - 1]) px y =
            (32, [], StyleNormal StyleDefault)"
    if "scr = ResetScreen root scr0" "0 < px" "px < vWidth (Model root)" "0 \<le> y" for px scr0
    using that d [of px] row GetContent_ResetScreen [of px root y scr0] by simp
  from a b c d e show ?thesis by blast
qed

lemma headerLoop_not_stuck:
  assumes "headerLoop E root hy lX lY scr = Some y"
  shows "\<not> (lY < Header root \<and> (\<exists>e. lineToContents E (Model root) lY (TabWidth root) = Inl e))"
  by (rule headerLoop.raw_induct
        [where P = "\<lambda>E root hy lX lY scr y.
           \<not> (lY < Header root \<and> (\<exists>e. lineToContents E (Model root) lY (TabWidth root) = Inl e))",
         OF _ assms])
     (auto split: if_splits sum.splits)

lemma headerLoop_stuck:
  assumes "lY < Header root" and "lineToContents E (Model root) lY (TabWidth root) = Inl e"
  shows "headerLoop E root hy lX lY scr = None"
proof (cases "headerLoop E root hy lX lY scr")
  case None
  then show ?thesis .
next
  case (Some y)
  from headerLoop_not_stuck [OF this] assms show ?thesis by blast
qed




lemma lineToContents_envA:
  "lineToContents envA m n tw =
     (if n < 0 \<or> BufEndNum m \<le> n then Inl OutOfRange
      else Inr \<lparr>contents = map byteCell (buffer m ! nat n),
                byteMap = (\<lambda>i. if 0 \<le> i \<and> i \<le> int (length (buffer m ! nat n)) then Some i else None)\<rparr>)"
  by (simp add: lineToContents_def envA_def)



lemma headerLoop_noWrap_step:
  assumes "lY < Header root" and "lineToContents E (Model root) lY (TabWidth root) = Inr lc"
    and "\<not> ColumnMode root" and "\<not> WrapMode root"
  shows "headerLoop E root hy lX lY scr =
           headerLoop E root (hy + 1) (max (mx (Model root)) (minStartX root)) (lY + 1)
             (fst (noWrapContents root hy (mx (Model root)) lY (headerStyle E (contents lc)) scr))"
  using assms
  by (subst headerLoop.simps)
     (simp add: columnHighlight_def drawContents_def noWrapContents_def Let_def max_def)


lemma clamp_fields:
  "Header (clampLineNum E root) = Header root"
  "TabWidth (clampLineNum E root) = TabWidth root"
  "WrapMode (clampLineNum E root) = WrapMode root"
  "ColumnMode (clampLineNum E root) = ColumnMode root"
  "buffer (Model (clampLineNum E root)) = buffer (Model root)"
  "vHight (Model (clampLineNum E root)) = vHight (Model root)"
  "vWidth (Model (clampLineNum E root)) = vWidth (Model root)"
  by (simp_all add: clampLineNum_def Let_def)





theorem bodyLoop_end_of_document_witness:
  "BufEndNum (Model rootF) \<le> lineNum (Model rootF) + 0 \<and> 0 < vHight (Model rootF) \<and>
   bodyLoop envA rootF 0 0 0 [] = Inr ([tilde 0, tilde 1, tilde 2], 0, 0)"
proof -
  have a: "BufEndNum (Model rootF) \<le> lineNum (Model rootF) + 0"
    and b: "0 < vHight (Model rootF)"
    by (simp_all add: BufEndNum_def rootF_def rootA_def modelA_def)
  have "[1 .. vHight (Model rootF) - 1] = [1, 2]"
    by (simp add: rootF_def rootA_def modelA_def upto_rec1)
  with bodyLoop_end_of_document [OF a b, of envA 0 "[]", THEN conjunct2, THEN conjunct1] a b
  show ?thesis by simp
qed

text \<open>
  C9.  The claim that \<open>Draw\<close> always returns fails on the code: with two header rows on a
  document of one line, the header loop draws line 0, fails to fetch line 1, and goes on to
  the next \<open>hy\<close> with \<open>lY\<close> unchanged for ever.  \<open>Draw\<close> does not return (\<open>None\<close>).
\<close>

theorem Draw_header_past_end_diverges: "Draw envA rootD = None"
proof -
  let ?r = "clampLineNum envA (rootD\<lparr>Screen := ResetScreen rootD (Screen rootD)\<rparr>)"
  have h: "Header ?r = 2" and w: "\<not> WrapMode ?r" and c: "\<not> ColumnMode ?r"
    and b: "buffer (Model ?r) = [''a'']"
    by (simp_all add: clamp_fields rootD_def rootA_def modelC_def)
  have l0: "\<exists>lc. lineToContents envA (Model ?r) 0 (TabWidth ?r) = Inr lc"
    by (simp add: lineToContents_envA BufEndNum_def b)
  have l1: "lineToContents envA (Model ?r) 1 (TabWidth ?r) = Inl OutOfRange"
    by (simp add: lineToContents_envA BufEndNum_def b)
  have stuck: "headerLoop envA ?r hy lX 1 scr = None" for hy lX scr
    by (rule headerLoop_stuck [OF _ l1]) (simp add: h)
  from l0 obtain lc where lc: "lineToContents envA (Model ?r) 0 (TabWidth ?r) = Inr lc" ..
  have "headerLoop envA ?r 0 0 0 (Screen ?r) = None"
    using headerLoop_noWrap_step [OF _ lc c w, of 0 0 "Screen ?r"] by (simp add: h stuck)
  moreover have "BufEndNum (Model rootD) \<noteq> 0" "vHight (Model rootD) \<noteq> 0"
    by (simp_all add: BufEndNum_def rootD_def rootA_def modelC_def)
  ultimately show ?thesis by (simp add: Draw_def Let_def)
qed

section \<open>Properties of the header rows\<close>


























end
